theory Spec2Isabelle
  imports Complex_Main
begin

section \<open>Data model of pyxdis/main.py\<close>

text \<open>
  Python objects are referenced, not copied: a code object is held in a store and named
  by its address, so that one code object can be the operand of several instructions and
  a reference graph may be shared or cyclic. Every reference points to an object, hence the
  store is a total function.
\<close>

type_synonym addr = nat

datatype stream = Stdout | Stderr | File nat

text \<open>The Python values that reach main.py; \<open>PyCode\<close> is a reference to a code object.\<close>

datatype pyval = PyNone | PyBool bool | PyInt int | PyStr string | PyCode addr | PyStream stream

record code_object =
  co_name :: string
  co_filename :: string
  co_firstlineno :: int
  co_code :: "nat list"
  co_consts :: "pyval list"
  co_names :: "string list"
  co_varnames :: "string list"

record instruction =
  opname :: string
  arg :: "int option"
  argval :: pyval
  offset :: nat

text \<open>The exceptions main.py raises or provokes; \<open>LoadError\<close> stands for any exception of the loader.\<close>

datatype error = AssertionError | AttributeError | TypeError | SystemExit int | LoadError

text \<open>The thirteen opcode modules imported from pyxdis.opcodes.\<close>

datatype opcode_module =
    opcode_23 | opcode_24 | opcode_25
  | opcode_26 | opcode_pypy26
  | opcode_27 | opcode_pypy27
  | opcode_30 | opcode_31
  | opcode_32 | opcode_33 | opcode_34 | opcode_35

text \<open>
  The mutable world: the code objects, the contents of the opcode modules (of a type
  \<open>'opc\<close> that main.py never inspects) and what has been written to every stream.
\<close>

record 'opc state =
  code_objects :: "addr \<Rightarrow> code_object"
  opcode_tables :: "opcode_module \<Rightarrow> 'opc"
  written :: "stream \<Rightarrow> string list"

text \<open>
  What main.py imports and does not define: the constants of package pyxdis, the string
  formatting of a version number (\<open>'%s' % version\<close>), the calendar rendering of a
  timestamp (\<open>'%Y-%m-%d %H:%M:%S'\<close> in the local time zone), pyxdis.util.format_code_info,
  the class pyxdis.bytecode.Bytecode (its methods dis and get_instructions) and the loader
  pyxdis.load. They are parameters of the model, taken as functions of their arguments.
  The formatters and the decoder are taken to return: an exception raised inside them is
  not part of this model. The loader may fail.
\<close>

record 'opc env =
  IS_PYPY :: bool
  PYTHON_VERSION :: rat
  PYTHON3 :: bool
  dunder_file :: string
  str_of :: "rat \<Rightarrow> string"
  calendar :: "int \<Rightarrow> string"
  format_code_info :: "code_object \<Rightarrow> rat \<Rightarrow> string"
  dis :: "'opc \<Rightarrow> code_object \<Rightarrow> string"
  get_instructions :: "'opc \<Rightarrow> code_object \<Rightarrow> instruction list"
  check_object_path :: "string \<Rightarrow> error + string"
  load_module :: "string \<Rightarrow> error + (rat \<times> int \<times> int \<times> pyval)"

text \<open>pyxdis.code.iscode: the test for a code object.\<close>

fun iscode :: "pyval \<Rightarrow> bool" where
  "iscode (PyCode a) = True"
| "iscode v = False"

text \<open>Python's truth value of an object, as \<open>out or sys.stdout\<close> tests it.\<close>

fun truthy :: "pyval \<Rightarrow> bool" where
  "truthy PyNone = False"
| "truthy (PyBool b) = b"
| "truthy (PyInt i) = (i \<noteq> 0)"
| "truthy (PyStr s) = (s \<noteq> [])"
| "truthy (PyCode a) = True"
| "truthy (PyStream f) = True"

definition py_or :: "pyval \<Rightarrow> pyval \<Rightarrow> pyval" where
  "py_or a b = (if truthy a then a else b)"

text \<open>\<open>f.write(s)\<close> on a stream appends \<open>s\<close> to what the stream has received.\<close>

definition stream_write :: "stream \<Rightarrow> string \<Rightarrow> 'opc state \<Rightarrow> 'opc state" where
  "stream_write f s st = st\<lparr>written := (written st)(f := written st f @ [s])\<rparr>"

text \<open>
  \<open>v.write(s)\<close> on any value: only a stream has the attribute \<open>write\<close>; on None (and on
  the other values) the attribute lookup raises AttributeError and nothing is written.
\<close>

definition py_write :: "pyval \<Rightarrow> string \<Rightarrow> 'opc state \<Rightarrow> error + 'opc state" where
  "py_write v s st = (case v of PyStream f \<Rightarrow> Inr (stream_write f s st) | _ \<Rightarrow> Inl AttributeError)"

section \<open>get_opcode\<close>

text \<open>
  A version is the number main.py compares with the literals 2.3 .. 3.5; the comparison is
  exact equality of numbers, so the number is modelled as a rational and each literal as
  the decimal fraction it is written as.
\<close>

definition get_opcode :: "'opc env \<Rightarrow> rat \<Rightarrow> error + opcode_module" where
  "get_opcode E version =
    (if version = 2.3 then Inr opcode_23
     else if version = 2.4 then Inr opcode_24
     else if version = 2.5 then Inr opcode_25
     else if version = 2.6 then
       (if IS_PYPY E then Inr opcode_pypy26 else Inr opcode_26)
     else if version = 2.7 then
       (if IS_PYPY E then Inr opcode_pypy27 else Inr opcode_27)
     else if version = 3.0 then Inr opcode_30
     else if version = 3.1 then Inr opcode_31
     else if version = 3.2 then Inr opcode_32
     else if version = 3.3 then Inr opcode_33
     else if version = 3.4 then Inr opcode_34
     else if version = 3.5 then Inr opcode_35
     else Inl TypeError)"

section \<open>disco_loop\<close>

text \<open>
  The inner \<open>for\<close> loop of disco_loop: every instruction whose argval is a code object
  appends that object to the queue.
\<close>

fun enqueue_code :: "instruction list \<Rightarrow> addr list \<Rightarrow> addr list" where
  "enqueue_code [] queue = queue"
| "enqueue_code (instr # instrs) queue =
    (case argval instr of
       PyCode a \<Rightarrow> enqueue_code instrs (queue @ [a])
     | _ \<Rightarrow> enqueue_code instrs queue)"

text \<open>
  The \<open>while\<close> loop. It has no bound in the source, so the model is a partial function:
  \<open>None\<close> is a run that never leaves the loop, \<open>Some st\<close> the state when the queue
  has become empty.
\<close>

partial_function (option) disco_loop ::
  "'opc env \<Rightarrow> opcode_module \<Rightarrow> rat \<Rightarrow> addr list \<Rightarrow> stream \<Rightarrow> 'opc state \<Rightarrow> 'opc state option"
where
  "disco_loop E opc version queue real_out st =
    (case queue of
       [] \<Rightarrow> Some st
     | co # queue' \<Rightarrow>
        (let st1 = (if co_name (code_objects st co) \<noteq> ''<module>''
                    then stream_write real_out
                      (''\<newline>'' @ format_code_info E (code_objects st co) version @ ''\<newline>'') st
                    else st);
             st2 = stream_write real_out
                     (dis E (opcode_tables st1 opc) (code_objects st1 co) @ ''\<newline>'') st1
         in disco_loop E opc version
              (enqueue_code
                 (get_instructions E (opcode_tables st2 opc) (code_objects st2 co)) queue')
              real_out st2))"

text \<open>
  The same loop stopped after at most \<open>k\<close> iterations: the queue and the state it has
  then reached. A run that never leaves the loop has such a state for every \<open>k\<close>, so
  what it has written by then can be stated.
\<close>

fun disco_loop_iter ::
  "nat \<Rightarrow> 'opc env \<Rightarrow> opcode_module \<Rightarrow> rat \<Rightarrow> addr list \<Rightarrow> stream \<Rightarrow> 'opc state
    \<Rightarrow> addr list \<times> 'opc state"
where
  "disco_loop_iter 0 E opc version queue real_out st = (queue, st)"
| "disco_loop_iter (Suc k) E opc version queue real_out st =
    (case queue of
       [] \<Rightarrow> ([], st)
     | co # queue' \<Rightarrow>
        (let st1 = (if co_name (code_objects st co) \<noteq> ''<module>''
                    then stream_write real_out
                      (''\<newline>'' @ format_code_info E (code_objects st co) version @ ''\<newline>'') st
                    else st);
             st2 = stream_write real_out
                     (dis E (opcode_tables st1 opc) (code_objects st1 co) @ ''\<newline>'') st1
         in disco_loop_iter k E opc version
              (enqueue_code
                 (get_instructions E (opcode_tables st2 opc) (code_objects st2 co)) queue')
              real_out st2))"

section \<open>disco\<close>

definition program_header :: "'opc env \<Rightarrow> rat \<Rightarrow> string" where
  "program_header E version =
     ''# Python bytecode '' @ str_of E version @
     '' (disassembled from Python '' @ str_of E (PYTHON_VERSION E) @ '')\<newline>''"

definition timestamp_line :: "'opc env \<Rightarrow> int \<Rightarrow> string" where
  "timestamp_line E timestamp = ''# Timestamp in code: '' @ calendar E timestamp @ ''\<newline>''"

text \<open>
  The result of a call: \<open>None\<close> when it never returns, else the exception it raised (if
  any) with the state it left behind.
\<close>

type_synonym 'opc outcome = "(error option \<times> 'opc state) option"

definition disco ::
  "'opc env \<Rightarrow> rat \<Rightarrow> pyval \<Rightarrow> int \<Rightarrow> pyval \<Rightarrow> 'opc state \<Rightarrow> 'opc outcome"
where
  "disco E version co timestamp out st =
    (case co of
       PyCode a \<Rightarrow>
        (let real_out = py_or out (PyStream Stdout) in
         case py_write out (program_header E version) st of
           Inl e \<Rightarrow> Some (Some e, st)
         | Inr st1 \<Rightarrow>
            (case (if timestamp > 0 then py_write out (timestamp_line E timestamp) st1
                   else Inr st1) of
               Inl e \<Rightarrow> Some (Some e, st1)
             | Inr st2 \<Rightarrow>
                (case (if co_filename (code_objects st2 a) \<noteq> []
                       then py_write out
                              (format_code_info E (code_objects st2 a) version @ ''\<newline>'') st2
                       else Inr st2) of
                   Inl e \<Rightarrow> Some (Some e, st2)
                 | Inr st3 \<Rightarrow>
                    (case get_opcode E version of
                       Inl e \<Rightarrow> Some (Some e, st3)
                     | Inr opc \<Rightarrow>
                        (case real_out of
                           PyStream f \<Rightarrow>
                             map_option (Pair None) (disco_loop E opc version [a] f st3)
                         | _ \<Rightarrow> Some (Some AttributeError, st3))))))
     | _ \<Rightarrow> Some (Some AssertionError, st))"

section \<open>disassemble_file and _test\<close>

definition disassemble_file ::
  "'opc env \<Rightarrow> string \<Rightarrow> pyval \<Rightarrow> 'opc state \<Rightarrow> 'opc outcome"
where
  "disassemble_file E filename outstream st =
    (case check_object_path E filename of
       Inl e \<Rightarrow> Some (Some e, st)
     | Inr filename' \<Rightarrow>
        (case load_module E filename' of
           Inl e \<Rightarrow> Some (Some e, st)
         | Inr (version, timestamp, magic_int, co) \<Rightarrow>
             disco E version co timestamp outstream st))"

text \<open>
  A call \<open>disassemble_file(fn, **kwargs)\<close> with one positional argument. Python binds
  the keywords to the parameters (filename, outstream=sys.stdout) before the body runs, and
  raises TypeError for a keyword that names no parameter or names one already bound.
\<close>

definition disassemble_file_params :: "string list" where
  "disassemble_file_params = [''filename'', ''outstream'']"

definition call_disassemble_file ::
  "'opc env \<Rightarrow> string \<Rightarrow> (string \<times> pyval) list \<Rightarrow> 'opc state \<Rightarrow> 'opc outcome"
where
  "call_disassemble_file E fn kwargs st =
    (if list_ex (\<lambda>k. k \<notin> set disassemble_file_params) (map fst kwargs)
        \<or> ''filename'' \<in> set (map fst kwargs)
     then Some (Some TypeError, st)
     else disassemble_file E fn
            (case map_of kwargs ''outstream'' of None \<Rightarrow> PyStream Stdout | Some v \<Rightarrow> v) st)"

definition usage :: "'opc env \<Rightarrow> string" where
  "usage E = ''usage: '' @ dunder_file E @ '' [-|CPython compiled file]\<newline>''"

text \<open>\<open>_test\<close>, with \<open>sys.argv\<close> as its argument.\<close>

definition u_test :: "'opc env \<Rightarrow> string list \<Rightarrow> 'opc state \<Rightarrow> 'opc outcome" where
  "u_test E argv st =
    (let argc = length argv in
     if argc \<noteq> 2 then
       (if argc = 1 \<and> PYTHON3 E
        then call_disassemble_file E (dunder_file E) [(''native'', PyBool True)] st
        else Some (Some (SystemExit 2), stream_write Stderr (usage E) st))
     else call_disassemble_file E (argv ! 1) [(''native'', PyBool True)] st)"

section \<open>Notions used to state the properties\<close>

text \<open>Several writes to one stream in a row.\<close>

definition emit :: "stream \<Rightarrow> string list \<Rightarrow> 'opc state \<Rightarrow> 'opc state" where
  "emit f ws st = st\<lparr>written := (written st)(f := written st f @ ws)\<rparr>"

text \<open>
  The code objects a decoded instruction stream refers to: one entry per instruction whose
  argval is a code object, in the order of the instructions, repeated references repeated.
\<close>

definition code_refs :: "instruction list \<Rightarrow> addr list" where
  "code_refs instrs = concat (map (\<lambda>i. case argval i of PyCode a \<Rightarrow> [a] | _ \<Rightarrow> []) instrs)"

definition children :: "'opc env \<Rightarrow> 'opc state \<Rightarrow> opcode_module \<Rightarrow> addr \<Rightarrow> addr list" where
  "children E st opc co =
     code_refs (get_instructions E (opcode_tables st opc) (code_objects st co))"

definition object_header :: "'opc env \<Rightarrow> 'opc state \<Rightarrow> rat \<Rightarrow> addr \<Rightarrow> string" where
  "object_header E st version co = format_code_info E (code_objects st co) version @ ''\<newline>''"

text \<open>What one visit of the loop writes for the code object \<open>co\<close>.\<close>

definition listing ::
  "'opc env \<Rightarrow> 'opc state \<Rightarrow> opcode_module \<Rightarrow> rat \<Rightarrow> addr \<Rightarrow> string list" where
  "listing E st opc version co =
     (if co_name (code_objects st co) \<noteq> ''<module>''
      then [''\<newline>'' @ object_header E st version co] else []) @
     [dis E (opcode_tables st opc) (code_objects st co) @ ''\<newline>'']"

text \<open>
  Breadth-first order, stated without a queue: level 0 is the start list, level \<open>k + 1\<close> is
  the children of level \<open>k\<close>, parent after parent, each parent's children in their own order.
  \<open>bfs_levels ch n q\<close> is levels \<open>0 .. n - 1\<close> one after the other and \<open>frontier ch n q\<close>
  is level \<open>n\<close>. Nothing is removed: an object reached twice occurs twice.
\<close>

fun frontier :: "('a \<Rightarrow> 'a list) \<Rightarrow> nat \<Rightarrow> 'a list \<Rightarrow> 'a list" where
  "frontier ch 0 q = q"
| "frontier ch (Suc n) q = frontier ch n (concat (map ch q))"

fun bfs_levels :: "('a \<Rightarrow> 'a list) \<Rightarrow> nat \<Rightarrow> 'a list \<Rightarrow> 'a list" where
  "bfs_levels ch 0 q = []"
| "bfs_levels ch (Suc n) q = q @ bfs_levels ch n (concat (map ch q))"

text \<open>
  The queue discipline by itself: \<open>visits ch k q\<close> is the first \<open>k\<close> objects taken
  from the front of the queue, each putting its children at the back, and
  \<open>pending ch k q\<close> is the queue after that.
\<close>

fun visits :: "('a \<Rightarrow> 'a list) \<Rightarrow> nat \<Rightarrow> 'a list \<Rightarrow> 'a list" where
  "visits ch 0 q = []"
| "visits ch (Suc k) [] = []"
| "visits ch (Suc k) (x # q) = x # visits ch k (q @ ch x)"

fun pending :: "('a \<Rightarrow> 'a list) \<Rightarrow> nat \<Rightarrow> 'a list \<Rightarrow> 'a list" where
  "pending ch 0 q = q"
| "pending ch (Suc k) [] = []"
| "pending ch (Suc k) (x # q) = pending ch k (q @ ch x)"

text \<open>The lines disco writes before it selects the opcode table.\<close>

definition program_lines :: "'opc env \<Rightarrow> rat \<Rightarrow> int \<Rightarrow> string list" where
  "program_lines E version timestamp =
     program_header E version # (if timestamp > 0 then [timestamp_line E timestamp] else [])"

definition root_header :: "'opc env \<Rightarrow> 'opc state \<Rightarrow> rat \<Rightarrow> addr \<Rightarrow> string list" where
  "root_header E st version a =
     (if co_filename (code_objects st a) \<noteq> [] then [object_header E st version a] else [])"

text \<open>The version literals of get_opcode.\<close>

definition supported_versions :: "rat list" where
  "supported_versions = [2.3, 2.4, 2.5, 2.6, 2.7, 3.0, 3.1, 3.2, 3.3, 3.4, 3.5]"

text \<open>
  The registry as the specification describes it: one table per revision, a revision being
  a version number with the alternate-runtime flag, and lookup by exact match on that pair.
  Its entries are the thirteen imported tables, each under the pair its name gives
  (\<open>opcode_pypy26\<close> and \<open>opcode_pypy27\<close> under the alternate runtime, the others
  under the standard one).
\<close>

definition registry :: "((rat \<times> bool) \<times> opcode_module) list" where
  "registry =
    [((2.3, False), opcode_23), ((2.4, False), opcode_24), ((2.5, False), opcode_25),
     ((2.6, False), opcode_26), ((2.6, True), opcode_pypy26),
     ((2.7, False), opcode_27), ((2.7, True), opcode_pypy27),
     ((3.0, False), opcode_30), ((3.1, False), opcode_31), ((3.2, False), opcode_32),
     ((3.3, False), opcode_33), ((3.4, False), opcode_34), ((3.5, False), opcode_35)]"

definition registry_lookup :: "rat \<times> bool \<Rightarrow> error + opcode_module" where
  "registry_lookup revision =
     (case map_of registry revision of None \<Rightarrow> Inl TypeError | Some t \<Rightarrow> Inr t)"

section \<open>Concrete inputs\<close>

text \<open>
  A small environment to run the model on: the decoder yields one LOAD_CONST instruction
  per constant of the code object, and the formatters print the object's name.
\<close>

definition load_const :: "pyval \<Rightarrow> instruction" where
  "load_const v = \<lparr>opname = ''LOAD_CONST'', arg = None, argval = v, offset = 0\<rparr>"

definition demo_env :: "unit env" where
  "demo_env =
    \<lparr>IS_PYPY = False, PYTHON_VERSION = 2.7, PYTHON3 = False, dunder_file = ''main.py'',
     str_of = (\<lambda>v. ''v''), calendar = (\<lambda>t. ''date''),
     format_code_info = (\<lambda>co v. ''# '' @ co_name co),
     dis = (\<lambda>opc co. ''dis '' @ co_name co),
     get_instructions = (\<lambda>opc co. map load_const (co_consts co)),
     check_object_path = Inr,
     load_module = (\<lambda>fn. Inr (2.7, 0, 62211, PyCode 0))\<rparr>"

definition demo_code :: "string \<Rightarrow> string \<Rightarrow> pyval list \<Rightarrow> code_object" where
  "demo_code name filename consts =
    \<lparr>co_name = name, co_filename = filename, co_firstlineno = 1, co_code = [],
     co_consts = consts, co_names = [], co_varnames = []\<rparr>"

definition demo_state :: "(addr \<Rightarrow> code_object) \<Rightarrow> unit state" where
  "demo_state objs = \<lparr>code_objects = objs, opcode_tables = (\<lambda>m. ()), written = (\<lambda>f. [])\<rparr>"

text \<open>
  A module whose instructions refer to the function \<open>f\<close> (object 1) twice and to the
  function \<open>g\<close> (object 2) once, in the order f, g, f.
\<close>

definition demo_tree :: "addr \<Rightarrow> code_object" where
  "demo_tree a =
    (if a = 0 then demo_code ''<module>'' ''t.py'' [PyCode 1, PyInt 7, PyCode 2, PyCode 1]
     else if a = 1 then demo_code ''f'' ''t.py'' [PyNone]
     else demo_code ''g'' ''t.py'' [])"

text \<open>A code object whose only constant is the object itself.\<close>

definition demo_cycle :: "addr \<Rightarrow> code_object" where
  "demo_cycle a = demo_code ''f'' ''t.py'' [PyCode 0]"

text \<open>A code object named \<open>f\<close> with an empty filename and no constants.\<close>

definition demo_bare :: "addr \<Rightarrow> code_object" where
  "demo_bare a = demo_code ''f'' [] []"

definition demo_rank :: "addr \<Rightarrow> nat" where
  "demo_rank a = (if a = 0 then 1 else 0)"

section \<open>Facts about the model\<close>

subsection \<open>Writing to streams\<close>

lemma emit_fields [simp]:
  "code_objects (emit f ws st) = code_objects st"
  "opcode_tables (emit f ws st) = opcode_tables st"
  "written (emit f ws st) f = written st f @ ws"
  "g \<noteq> f \<Longrightarrow> written (emit f ws st) g = written st g"
  by (simp_all add: emit_def)

lemma written_emit:
  "written (emit f ws st) g = (if g = f then written st f @ ws else written st g)"
  by (simp add: emit_def)

lemma emit_emit: "emit f ws (emit f vs st) = emit f (vs @ ws) st"
  by (simp add: emit_def)

lemma emit_Nil [simp]: "emit f [] st = st"
  by (simp add: emit_def)

lemma stream_write_emit: "stream_write f s st = emit f [s] st"
  by (simp add: stream_write_def emit_def)

lemma children_emit [simp]: "children E (emit f ws st) = children E st"
  by (rule ext, rule ext) (simp add: children_def)

lemma listing_emit [simp]: "listing E (emit f ws st) = listing E st"
  by (rule ext)+ (simp add: listing_def object_header_def)

subsection \<open>Levels\<close>

lemma frontier_Nil [simp]: "frontier ch n [] = []"
  by (induction n) simp_all

lemma frontier_append: "frontier ch n (xs @ ys) = frontier ch n xs @ frontier ch n ys"
  by (induction n arbitrary: xs ys) simp_all

lemma frontier_Suc_outer: "frontier ch (Suc n) q = concat (map ch (frontier ch n q))"
  by (induction n arbitrary: q) simp_all

lemma frontier_empty_Suc: "frontier ch n q = [] \<Longrightarrow> frontier ch (Suc n) q = []"
  by (simp only: frontier_Suc_outer) simp

lemma frontier_rank:
  assumes closed: "\<forall>a\<in>S. \<forall>c\<in>set (ch a). c \<in> S \<and> rank c < (rank a :: nat)"
    and q: "set q \<subseteq> S"
  shows "\<forall>x\<in>set (frontier ch n q). x \<in> S \<and> (\<exists>y\<in>set q. rank x + n \<le> rank y)"
proof (induction n)
  case 0
  show ?case using q by auto
next
  case (Suc n)
  show ?case
  proof
    fix x assume "x \<in> set (frontier ch (Suc n) q)"
    then obtain z where z: "z \<in> set (frontier ch n q)" and x: "x \<in> set (ch z)"
      by (auto simp only: frontier_Suc_outer set_concat set_map)
    from Suc z obtain y where "z \<in> S" "y \<in> set q" "rank z + n \<le> rank y" by blast
    moreover from closed \<open>z \<in> S\<close> x have "x \<in> S" "rank x < rank z" by auto
    ultimately show "x \<in> S \<and> (\<exists>y\<in>set q. rank x + Suc n \<le> rank y)"
      by (intro conjI bexI [of _ y]) auto
  qed
qed

lemma frontier_rank_empty:
  assumes closed: "\<forall>a\<in>S. \<forall>c\<in>set (ch a). c \<in> S \<and> rank c < (rank a :: nat)"
    and q: "set q \<subseteq> S"
  shows "frontier ch (Suc (sum_list (map rank q))) q = []"
proof (rule ccontr)
  assume "frontier ch (Suc (sum_list (map rank q))) q \<noteq> []"
  then obtain x where "x \<in> set (frontier ch (Suc (sum_list (map rank q))) q)"
    by (meson last_in_set)
  with frontier_rank [OF closed q, of "Suc (sum_list (map rank q))"]
  obtain y where y: "y \<in> set q" "rank x + Suc (sum_list (map rank q)) \<le> rank y" by blast
  from y(1) have "rank y \<le> sum_list (map rank q)"
    by (simp add: member_le_sum_list)
  with y(2) show False by simp
qed

lemma frontier_add: "frontier ch (i + j) q = frontier ch i (frontier ch j q)"
proof (induction j arbitrary: q)
  case 0
  show ?case by simp
next
  case (Suc j)
  show ?case using Suc.IH [of "concat (map ch q)"] by simp
qed

lemma frontier_empty_le:
  assumes "frontier ch n q = []" and "n \<le> m"
  shows "frontier ch m q = []"
proof -
  from assms(2) obtain d where "m = d + n" by (metis le_add_diff_inverse2)
  with assms(1) show ?thesis by (simp add: frontier_add)
qed

lemma set_frontier: "set (frontier ch i q) = (\<Union>x\<in>set q. set (frontier ch i [x]))"
proof (induction q)
  case Nil
  show ?case by simp
next
  case (Cons x q)
  have "frontier ch i (x # q) = frontier ch i [x] @ frontier ch i q"
    using frontier_append [of ch i "[x]" q] by simp
  with Cons show ?case by simp
qed

lemma frontier_self_again:
  assumes "a \<in> set (frontier ch j [a])"
  shows "a \<in> set (frontier ch (m * j) [a])"
proof (induction m)
  case 0
  show ?case by simp
next
  case (Suc m)
  have "frontier ch (Suc m * j) [a] = frontier ch j (frontier ch (m * j) [a])"
    using frontier_add [of ch j "m * j" "[a]"] by simp
  moreover have "set (frontier ch j [a]) \<subseteq> set (frontier ch j (frontier ch (m * j) [a]))"
    using Suc by (subst (2) set_frontier) blast
  ultimately show ?case using assms by auto
qed

lemma frontier_no_return:
  assumes "frontier ch n [a] = []" and "0 < j"
  shows "a \<notin> set (frontier ch j [a])"
proof
  assume "a \<in> set (frontier ch j [a])"
  from frontier_self_again [OF this, of n] have "frontier ch (n * j) [a] \<noteq> []" by auto
  moreover from assms(2) have "n \<le> n * j" by simp
  ultimately show False using frontier_empty_le [OF assms(1)] by blast
qed

lemma set_bfs_levels: "set (bfs_levels ch n q) = (\<Union>i<n. set (frontier ch i q))"
proof (induction n arbitrary: q)
  case 0
  show ?case by simp
next
  case (Suc n)
  have "(\<Union>i<Suc n. set (frontier ch i q)) =
      set (frontier ch 0 q) \<union> (\<Union>i<n. set (frontier ch (Suc i) q))"
    by (auto simp add: less_Suc_eq_0_disj)
  then show ?case by (simp add: Suc.IH)
qed

lemma root_once:
  assumes "frontier ch n [a] = []"
  shows "count_list (bfs_levels ch n [a]) a = 1"
proof (cases n)
  case 0
  with assms show ?thesis by simp
next
  case (Suc m)
  have "a \<notin> set (bfs_levels ch m (ch a))"
  proof
    assume "a \<in> set (bfs_levels ch m (ch a))"
    then obtain i where "a \<in> set (frontier ch i (ch a))"
      by (auto simp add: set_bfs_levels)
    then have "a \<in> set (frontier ch (Suc i) [a])" by simp
    with frontier_no_return [OF assms, of "Suc i"] show False by simp
  qed
  then have "count_list (bfs_levels ch m (ch a)) a = 0"
    by (simp only: count_list_0_iff not_False_eq_True)
  then show ?thesis by (simp add: Suc)
qed

lemma visits_prefix:
  "visits ch (length p + k) (p @ r) = p @ visits ch k (r @ concat (map ch p))"
  by (induction p arbitrary: r) simp_all

lemma pending_prefix:
  "pending ch (length p + k) (p @ r) = pending ch k (r @ concat (map ch p))"
  by (induction p arbitrary: r) simp_all

lemma visits_levels:
  "visits ch (length (bfs_levels ch n q)) q = bfs_levels ch n q"
proof (induction n arbitrary: q)
  case 0
  show ?case by simp
next
  case (Suc n)
  show ?case
    using visits_prefix [of ch q "length (bfs_levels ch n (concat (map ch q)))" "[]"]
    by (simp add: Suc.IH)
qed

lemma pending_levels:
  "pending ch (length (bfs_levels ch n q)) q = frontier ch n q"
proof (induction n arbitrary: q)
  case 0
  show ?case by simp
next
  case (Suc n)
  show ?case
    using pending_prefix [of ch q "length (bfs_levels ch n (concat (map ch q)))" "[]"]
    by (simp add: Suc.IH)
qed

subsection \<open>The loop, one visit at a time\<close>

lemma enqueue_code_eq: "enqueue_code instrs queue = queue @ code_refs instrs"
  by (induction instrs arbitrary: queue) (auto simp: code_refs_def split: pyval.splits)

lemma disco_loop_Nil: "disco_loop E opc version [] real_out st = Some st"
  by (subst disco_loop.simps) simp

lemma disco_loop_Cons:
  "disco_loop E opc version (co # queue) real_out st =
   disco_loop E opc version (queue @ children E st opc co) real_out
     (emit real_out (listing E st opc version co) st)"
  by (subst disco_loop.simps)
     (simp add: Let_def stream_write_emit emit_emit enqueue_code_eq children_def listing_def
        object_header_def)

text \<open>
  Working off a prefix \<open>p\<close> of the queue visits the objects of \<open>p\<close> in order and leaves
  their children behind the rest of the queue.
\<close>

lemma disco_loop_prefix:
  "disco_loop E opc version (p @ r) real_out st =
   disco_loop E opc version (r @ concat (map (children E st opc) p)) real_out
     (emit real_out (concat (map (listing E st opc version) p)) st)"
proof (induction p arbitrary: r st)
  case Nil
  show ?case by simp
next
  case (Cons co p)
  show ?case
    using Cons.IH [of "r @ children E st opc co" "emit real_out (listing E st opc version co) st"]
    by (simp add: disco_loop_Cons emit_emit)
qed

lemma disco_loop_levels:
  "disco_loop E opc version queue real_out st =
   disco_loop E opc version (frontier (children E st opc) n queue) real_out
     (emit real_out (concat (map (listing E st opc version)
        (bfs_levels (children E st opc) n queue))) st)"
proof (induction n arbitrary: queue st)
  case 0
  show ?case by simp
next
  case (Suc n)
  show ?case
    using disco_loop_prefix [of E opc version queue "[]" real_out st]
      Suc.IH [of "concat (map (children E st opc) queue)"
                 "emit real_out (concat (map (listing E st opc version) queue)) st"]
    by (simp add: emit_emit)
qed

lemma disco_loop_finite:
  assumes "frontier (children E st opc) n queue = []"
  shows "disco_loop E opc version queue real_out st =
    Some (emit real_out
      (concat (map (listing E st opc version) (bfs_levels (children E st opc) n queue))) st)"
  using disco_loop_levels [of E opc version queue real_out st n] assms
  by (simp add: disco_loop_Nil)

text \<open>Induction over a run of the loop that ends.\<close>

lemma disco_loop_induct [consumes 1, case_names empty visit]:
  assumes run: "disco_loop E opc version queue real_out st = Some st'"
    and empty: "\<And>st. P [] st st"
    and visit: "\<And>co queue st st'.
      P (queue @ children E st opc co) (emit real_out (listing E st opc version co) st) st' \<Longrightarrow>
      P (co # queue) st st'"
  shows "P queue st st'"
proof -
  have "E' = E \<longrightarrow> opc' = opc \<longrightarrow> version' = version \<longrightarrow> real_out' = real_out \<longrightarrow> P queue st st'"
    if "disco_loop E' opc' version' queue real_out' st = Some st'" for E' opc' version' real_out'
    using that
  proof (induction E' opc' version' queue real_out' st st'
      rule: disco_loop.raw_induct [rotated 1, consumes 1])
    case (1 loop E' opc' version' queue real_out' st st')
    show ?case
    proof (intro impI)
      assume eqs: "E' = E" "opc' = opc" "version' = version" "real_out' = real_out"
      show "P queue st st'"
      proof (cases queue)
        case Nil
        with 1(2) show ?thesis by (simp add: empty)
      next
        case (Cons co rest)
        have call: "loop E opc version (rest @ children E st opc co) real_out
            (emit real_out (listing E st opc version co) st) = Some st'"
          using 1(2) unfolding eqs Cons
          by (simp add: Let_def stream_write_emit emit_emit enqueue_code_eq children_def
              listing_def object_header_def split: if_splits)
        show ?thesis
          unfolding Cons using 1(1) [OF call] by (auto intro: visit)
      qed
    qed
  qed
  with run show ?thesis by blast
qed

lemma disco_loop_Some_depth:
  assumes "disco_loop E opc version queue real_out st = Some st'"
  shows "\<exists>n. frontier (children E st opc) n queue = []"
  using assms
proof (induction rule: disco_loop_induct)
  case (empty st)
  show ?case by simp
next
  case (visit co queue st st')
  then obtain n where n: "frontier (children E st opc) n (queue @ children E st opc co) = []"
    by auto
  then have "frontier (children E st opc) (Suc n) queue = []"
    by (simp add: frontier_append frontier_empty_Suc del: frontier.simps)
  with n have "frontier (children E st opc) (Suc n) (co # queue) = []"
    by (simp add: frontier_append)
  then show ?case by blast
qed

lemma disco_loop_Some_emit:
  assumes "disco_loop E opc version queue real_out st = Some st'"
  shows "\<exists>n. frontier (children E st opc) n queue = [] \<and>
    st' = emit real_out
      (concat (map (listing E st opc version) (bfs_levels (children E st opc) n queue))) st"
proof -
  from disco_loop_Some_depth [OF assms] obtain n
    where n: "frontier (children E st opc) n queue = []" by blast
  from disco_loop_finite [OF n, of version real_out] assms
  show ?thesis using n by auto
qed

text \<open>The loop after \<open>k\<close> iterations.\<close>

lemma disco_loop_iter_Nil: "disco_loop_iter k E opc version [] real_out st = ([], st)"
  by (cases k) simp_all

lemma disco_loop_iter_Cons:
  "disco_loop_iter (Suc k) E opc version (co # queue) real_out st =
   disco_loop_iter k E opc version (queue @ children E st opc co) real_out
     (emit real_out (listing E st opc version co) st)"
  by (simp add: Let_def stream_write_emit emit_emit enqueue_code_eq children_def listing_def
        object_header_def)

lemma disco_loop_iter_eq:
  "disco_loop_iter k E opc version queue real_out st =
     (pending (children E st opc) k queue,
      emit real_out (concat (map (listing E st opc version)
        (visits (children E st opc) k queue))) st)"
proof (induction k arbitrary: queue st)
  case 0
  show ?case by simp
next
  case (Suc k)
  show ?case
  proof (cases queue)
    case Nil
    then show ?thesis by (simp add: disco_loop_iter_Nil)
  next
    case (Cons co rest)
    show ?thesis
      unfolding Cons disco_loop_iter_Cons
      by (simp add: Suc.IH emit_emit)
  qed
qed

lemma disco_loop_iter_link:
  "disco_loop E opc version queue real_out st =
     disco_loop E opc version (fst (disco_loop_iter k E opc version queue real_out st)) real_out
       (snd (disco_loop_iter k E opc version queue real_out st))"
proof (induction k arbitrary: queue st)
  case 0
  show ?case by simp
next
  case (Suc k)
  show ?case
  proof (cases queue)
    case Nil
    then show ?thesis by (simp add: disco_loop_iter_Nil)
  next
    case (Cons co rest)
    show ?thesis
      unfolding Cons disco_loop_iter_Cons disco_loop_Cons
      by (rule Suc.IH)
  qed
qed

lemma disco_loop_Some_iter:
  assumes "disco_loop E opc version queue real_out st = Some st'"
  shows "\<exists>k. disco_loop_iter k E opc version queue real_out st = ([], st')"
  using assms
proof (induction rule: disco_loop_induct)
  case (empty st)
  have "disco_loop_iter 0 E opc version [] real_out st = ([], st)" by simp
  then show ?case by blast
next
  case (visit co queue st st')
  then obtain k where "disco_loop_iter k E opc version (queue @ children E st opc co) real_out
     (emit real_out (listing E st opc version co) st) = ([], st')" by blast
  then have "disco_loop_iter (Suc k) E opc version (co # queue) real_out st = ([], st')"
    by (simp only: disco_loop_iter_Cons)
  then show ?case by blast
qed

subsection \<open>get_opcode and disco\<close>

lemma get_opcode_unsupported:
  "version \<notin> set supported_versions \<Longrightarrow> get_opcode E version = Inl TypeError"
  by (simp add: get_opcode_def supported_versions_def)

lemma disco_code_stream:
  "disco E version (PyCode a) timestamp (PyStream f) st =
    (case get_opcode E version of
       Inl e \<Rightarrow>
         Some (Some e, emit f (program_lines E version timestamp @ root_header E st version a) st)
     | Inr opc \<Rightarrow>
         map_option (Pair None)
           (disco_loop E opc version [a] f
              (emit f (program_lines E version timestamp @ root_header E st version a) st)))"
  by (simp add: disco_def py_or_def py_write_def Let_def stream_write_emit emit_emit
      program_lines_def root_header_def object_header_def split: sum.splits)

lemma disco_not_code: "\<not> iscode co \<Longrightarrow> disco E version co timestamp out st = Some (Some AssertionError, st)"
  by (cases co) (simp_all add: disco_def)

lemma disco_not_stream:
  "\<forall>f. out \<noteq> PyStream f \<Longrightarrow>
   disco E version (PyCode a) timestamp out st = Some (Some AttributeError, st)"
  by (cases out) (simp_all add: disco_def py_write_def Let_def)

lemma disco_Some_emit:
  assumes "disco E version (PyCode a) timestamp (PyStream f) st = Some (exc, st')"
  shows "\<exists>body. st' = emit f (program_lines E version timestamp @ root_header E st version a @ body) st \<and>
    (\<forall>t. disco E version (PyCode a) t (PyStream f) st =
       Some (exc, emit f (program_lines E version t @ root_header E st version a @ body) st))"
proof (cases "get_opcode E version")
  case (Inl e)
  with assms have "exc = Some e"
    "st' = emit f (program_lines E version timestamp @ root_header E st version a @ []) st"
    by (simp_all add: disco_code_stream)
  moreover have "\<forall>t. disco E version (PyCode a) t (PyStream f) st =
       Some (Some e, emit f (program_lines E version t @ root_header E st version a @ []) st)"
    using Inl by (simp add: disco_code_stream)
  ultimately show ?thesis by blast
next
  case (Inr opc)
  let ?pre = "\<lambda>t. program_lines E version t @ root_header E st version a"
  from assms Inr have exc: "exc = None"
    and run: "disco_loop E opc version [a] f (emit f (?pre timestamp) st) = Some st'"
    by (auto simp add: disco_code_stream)
  from disco_loop_Some_emit [OF run] obtain n
    where n: "frontier (children E st opc) n [a] = []"
      and st': "st' = emit f (?pre timestamp @
         concat (map (listing E st opc version) (bfs_levels (children E st opc) n [a]))) st"
    by (auto simp add: emit_emit)
  have "disco E version (PyCode a) t (PyStream f) st =
       Some (exc, emit f (?pre t @
         concat (map (listing E st opc version) (bfs_levels (children E st opc) n [a]))) st)" for t
    using disco_loop_finite [of E "emit f (?pre t) st" opc n "[a]" version f] n Inr exc
    by (simp add: disco_code_stream emit_emit)
  with st' show ?thesis by auto
qed

lemma disco_Some_frame:
  assumes "disco E version co timestamp out st = Some (exc, st')"
  shows "st' = st \<or> (\<exists>f ws. out = PyStream f \<and> st' = emit f ws st)"
proof (cases "iscode co")
  case False
  with assms show ?thesis by (simp add: disco_not_code)
next
  case True
  then obtain a where co: "co = PyCode a" by (cases co) simp_all
  show ?thesis
  proof (cases "\<exists>f. out = PyStream f")
    case False
    with assms co show ?thesis by (simp add: disco_not_stream)
  next
    case True
    then obtain f where out: "out = PyStream f" by blast
    from disco_Some_emit [OF assms [unfolded co out]] out show ?thesis by blast
  qed
qed

lemma call_native:
  "call_disassemble_file E fn [(''native'', PyBool True)] st = Some (Some TypeError, st)"
  by (simp add: call_disassemble_file_def disassemble_file_params_def)

subsection \<open>The concrete inputs\<close>

lemma demo_children_tree [simp]:
  "children demo_env (demo_state demo_tree) opc a = (if a = 0 then [1, 2, 1] else [])"
  by (simp add: children_def demo_env_def demo_state_def demo_tree_def demo_code_def
      code_refs_def load_const_def)

lemma demo_children_cycle [simp]:
  "children demo_env (emit f ws (demo_state demo_cycle)) opc a = [0]"
  by (simp add: children_def demo_env_def demo_state_def demo_cycle_def demo_code_def
      code_refs_def load_const_def)

lemma demo_children_bare [simp]:
  "children demo_env (demo_state demo_bare) opc a = []"
  by (simp add: children_def demo_env_def demo_state_def demo_bare_def demo_code_def
      code_refs_def)

lemma demo_loop_tree:
  "disco_loop demo_env opcode_27 2.7 [0] Stdout (demo_state demo_tree) =
     Some (emit Stdout
       [''dis <module>\<newline>'',
        ''\<newline># f\<newline>'', ''dis f\<newline>'',
        ''\<newline># g\<newline>'', ''dis g\<newline>'',
        ''\<newline># f\<newline>'', ''dis f\<newline>''] (demo_state demo_tree))"
proof -
  have two: "(2::nat) = Suc (Suc 0)" by simp
  have f: "frontier (children demo_env (demo_state demo_tree) opcode_27) 2 [0] = []"
    unfolding two by simp
  have b: "bfs_levels (children demo_env (demo_state demo_tree) opcode_27) 2 [0] = [0, 1, 2, 1]"
    unfolding two by simp
  have l: "concat (map (listing demo_env (demo_state demo_tree) opcode_27 2.7) [0, 1, 2, 1]) =
       [''dis <module>\<newline>'',
        ''\<newline># f\<newline>'', ''dis f\<newline>'',
        ''\<newline># g\<newline>'', ''dis g\<newline>'',
        ''\<newline># f\<newline>'', ''dis f\<newline>'']"
    by (simp add: listing_def object_header_def demo_env_def demo_state_def demo_tree_def
        demo_code_def)
  show ?thesis
    using disco_loop_finite [OF f, of "2.7" Stdout] l unfolding b by simp
qed

section \<open>Traversal order (C1)\<close>

text \<open>
  C1, as the code has it. disco_loop visits code objects breadth-first from a work queue,
  for every queue and state, whether or not the run ends:
  \<^item> after as many iterations as levels \<open>0 .. n - 1\<close> hold objects, the loop has written
    the listings of exactly these objects in level order and its queue is level \<open>n\<close>;
    so every code object that is the argval of a decoded instruction is enqueued and
    visited once per occurrence, in the order of the instructions, with nothing merged;
  \<^item> the run of the loop is the run that goes on from the queue and state reached after any
    number \<open>k\<close> of iterations;
  \<^item> if level \<open>n\<close> is empty the loop ends, having written exactly the listings of levels
    \<open>0 .. n - 1\<close>;
  \<^item> if the levels below a root run out, the root is visited exactly once;
  \<^item> disco starts the loop with the queue holding the root alone.
\<close>

theorem disco_loop_breadth_first:
  "disco_loop_iter (length (bfs_levels (children E st opc) n queue)) E opc version queue
       real_out st =
     (frontier (children E st opc) n queue,
      emit real_out (concat (map (listing E st opc version)
        (bfs_levels (children E st opc) n queue))) st) \<and>
   disco_loop E opc version queue real_out st =
     disco_loop E opc version
       (fst (disco_loop_iter k E opc version queue real_out st)) real_out
       (snd (disco_loop_iter k E opc version queue real_out st)) \<and>
   (frontier (children E st opc) n queue = [] \<longrightarrow>
     disco_loop E opc version queue real_out st =
       Some (emit real_out (concat (map (listing E st opc version)
          (bfs_levels (children E st opc) n queue))) st)) \<and>
   (frontier (children E st opc) n [a] = [] \<longrightarrow>
     count_list (bfs_levels (children E st opc) n [a]) a = 1) \<and>
   (get_opcode E version = Inr opc \<longrightarrow>
     disco E version (PyCode a) timestamp (PyStream f) st =
       map_option (Pair None)
         (disco_loop E opc version [a] f
            (emit f (program_lines E version timestamp @ root_header E st version a) st)))"
proof (intro conjI impI)
  show "disco_loop_iter (length (bfs_levels (children E st opc) n queue)) E opc version queue
       real_out st =
     (frontier (children E st opc) n queue,
      emit real_out (concat (map (listing E st opc version)
        (bfs_levels (children E st opc) n queue))) st)"
    by (simp only: disco_loop_iter_eq visits_levels pending_levels)
next
  show "disco_loop E opc version queue real_out st =
     disco_loop E opc version
       (fst (disco_loop_iter k E opc version queue real_out st)) real_out
       (snd (disco_loop_iter k E opc version queue real_out st))"
    by (rule disco_loop_iter_link)
next
  assume "frontier (children E st opc) n queue = []"
  then show "disco_loop E opc version queue real_out st =
       Some (emit real_out (concat (map (listing E st opc version)
          (bfs_levels (children E st opc) n queue))) st)"
    by (rule disco_loop_finite)
next
  assume "frontier (children E st opc) n [a] = []"
  then show "count_list (bfs_levels (children E st opc) n [a]) a = 1"
    by (rule root_once)
next
  assume "get_opcode E version = Inr opc"
  then show "disco E version (PyCode a) timestamp (PyStream f) st =
       map_option (Pair None)
         (disco_loop E opc version [a] f
            (emit f (program_lines E version timestamp @ root_header E st version a) st))"
    by (simp add: disco_code_stream)
qed

text \<open>
  The run on the module that refers to f, g, f: the visits are module, f, g, f, and the
  module is among them once.
\<close>

theorem disco_loop_breadth_first_witness:
  "frontier (children demo_env (demo_state demo_tree) opcode_27) 2 [0] = [] \<and>
   bfs_levels (children demo_env (demo_state demo_tree) opcode_27) 2 [0] = [0, 1, 2, 1] \<and>
   count_list [0, 1, 2, 1] (0::addr) = 1 \<and>
   get_opcode demo_env 2.7 = Inr opcode_27 \<and>
   disco_loop demo_env opcode_27 2.7 [0] Stdout (demo_state demo_tree) =
     Some (emit Stdout
       [''dis <module>\<newline>'',
        ''\<newline># f\<newline>'', ''dis f\<newline>'',
        ''\<newline># g\<newline>'', ''dis g\<newline>'',
        ''\<newline># f\<newline>'', ''dis f\<newline>''] (demo_state demo_tree))"
proof -
  have two: "(2::nat) = Suc (Suc 0)" by simp
  have f: "frontier (children demo_env (demo_state demo_tree) opcode_27) 2 [0] = []"
    unfolding two by simp
  have b: "bfs_levels (children demo_env (demo_state demo_tree) opcode_27) 2 [0] = [0, 1, 2, 1]"
    unfolding two by simp
  have g: "get_opcode demo_env 2.7 = Inr opcode_27"
    by (simp add: get_opcode_def demo_env_def)
  have l: "concat (map (listing demo_env (demo_state demo_tree) opcode_27 2.7) [0, 1, 2, 1]) =
       [''dis <module>\<newline>'',
        ''\<newline># f\<newline>'', ''dis f\<newline>'',
        ''\<newline># g\<newline>'', ''dis g\<newline>'',
        ''\<newline># f\<newline>'', ''dis f\<newline>'']"
    by (simp add: listing_def object_header_def demo_env_def demo_state_def demo_tree_def
        demo_code_def)
  note all = disco_loop_breadth_first
    [where E = demo_env and opc = opcode_27 and version = "2.7" and queue = "[0]"
       and real_out = Stdout and st = "demo_state demo_tree" and n = 2 and a = 0]
  note run = all [THEN conjunct2, THEN conjunct2, THEN conjunct1, rule_format, OF f]
  note once = all [THEN conjunct2, THEN conjunct2, THEN conjunct2, THEN conjunct1,
    rule_format, OF f]
  from once have c: "count_list [0, 1, 2, 1] (0::addr) = 1" unfolding b .
  show ?thesis using f b g l run c by simp
qed

text \<open>
  C1 as stated fails for the root that refers to itself: the first two iterations both
  visit the root, and the root is in the queue again.
\<close>

theorem disco_loop_root_twice_counterexample:
  "visits (children demo_env (demo_state demo_cycle) opcode_27) 2 [0] = [0, 0] \<and>
   disco_loop_iter 2 demo_env opcode_27 2.7 [0] Stdout (demo_state demo_cycle) =
     ([0], emit Stdout
        [''\<newline># f\<newline>'', ''dis f\<newline>'', ''\<newline># f\<newline>'', ''dis f\<newline>'']
        (demo_state demo_cycle))"
proof -
  have two: "(2::nat) = Suc (Suc 0)" by simp
  have c: "children demo_env (demo_state demo_cycle) opcode_27 = (\<lambda>a. [0])"
    using demo_children_cycle [of Stdout "[]" opcode_27] by (intro ext) simp
  have l: "listing demo_env (demo_state demo_cycle) opcode_27 2.7 0 =
      [''\<newline># f\<newline>'', ''dis f\<newline>'']"
    by (simp add: listing_def object_header_def demo_env_def demo_state_def demo_cycle_def
        demo_code_def)
  show ?thesis
    unfolding disco_loop_iter_eq c two using l by (simp add: c)
qed

section \<open>Table lookup (C2)\<close>

text \<open>
  C2, as the code has it. get_opcode matches the version number exactly: a version that
  is none of the eleven literals raises TypeError, whatever is near it. The runtime flag
  IS_PYPY is looked at for 2.6 and 2.7 only. In terms of the registry: the table
  registered for the pair of the version and the flag if there is one, else the table
  registered for the same version under the standard runtime, else TypeError.
\<close>

theorem get_opcode_lookup:
  "get_opcode E version =
     (case map_of registry (version, IS_PYPY E) of
        Some t \<Rightarrow> Inr t
      | None \<Rightarrow> (case map_of registry (version, False) of
                   Some t \<Rightarrow> Inr t
                 | None \<Rightarrow> Inl TypeError))"
  by (simp add: get_opcode_def registry_def)

theorem get_opcode_lookup_witness:
  "get_opcode (demo_env\<lparr>IS_PYPY := True\<rparr>) 2.7 = Inr opcode_pypy27 \<and>
   get_opcode demo_env 2.7 = Inr opcode_27 \<and>
   get_opcode demo_env 2.8 = Inl TypeError"
  using get_opcode_lookup [of "demo_env\<lparr>IS_PYPY := True\<rparr>" "2.7"]
    get_opcode_lookup [of demo_env "2.7"] get_opcode_lookup [of demo_env "2.8"]
  by (simp add: registry_def demo_env_def)

text \<open>
  C2 as stated fails: under the alternate runtime, version 3.5 has no table of its own in
  the registry, and get_opcode returns \<open>opcode_35\<close>, the table it returns under the
  standard runtime.
\<close>

theorem get_opcode_pypy_counterexample:
  "get_opcode (demo_env\<lparr>IS_PYPY := True\<rparr>) 3.5 = Inr opcode_35 \<and>
   get_opcode (demo_env\<lparr>IS_PYPY := False\<rparr>) 3.5 = Inr opcode_35 \<and>
   registry_lookup (3.5, True) = Inl TypeError"
  by (simp add: get_opcode_def registry_lookup_def registry_def)

section \<open>Unsupported versions (C3)\<close>

text \<open>
  C3, as the code has it. For a version that is none of the supported ones, disco (given a
  code object and a stream) raises the TypeError of get_opcode after it has written the
  program header, the timestamp line if the timestamp is positive and the root's header
  if the root has a filename; the loop is not entered and no listing is written.
\<close>

theorem disco_unsupported_version:
  assumes "version \<notin> set supported_versions"
  shows "disco E version (PyCode a) timestamp (PyStream f) st =
    Some (Some TypeError,
      emit f (program_header E version #
              (if timestamp > 0 then [timestamp_line E timestamp] else []) @
              (if co_filename (code_objects st a) \<noteq> []
               then [format_code_info E (code_objects st a) version @ ''\<newline>''] else [])) st)"
  using get_opcode_unsupported [OF assms, of E]
  by (simp add: disco_code_stream program_lines_def root_header_def object_header_def)

theorem disco_unsupported_version_witness:
  "(9.9::rat) \<notin> set supported_versions \<and>
   disco demo_env 9.9 (PyCode 0) 0 (PyStream (File 0)) (demo_state demo_tree) =
    Some (Some TypeError,
      emit (File 0) [''# Python bytecode v (disassembled from Python v)\<newline>'', ''# <module>\<newline>'']
        (demo_state demo_tree))"
proof -
  have v: "(9.9::rat) \<notin> set supported_versions" by (simp add: supported_versions_def)
  show ?thesis
    using v disco_unsupported_version [OF v, of demo_env 0 0 "File 0" "demo_state demo_tree"]
    by (simp add: program_header_def demo_env_def demo_state_def demo_tree_def demo_code_def)
qed

text \<open>
  C3 as stated fails: at version 9.9 the error comes after two lines have been written.
\<close>

theorem disco_unsupported_version_counterexample:
  "disco demo_env 9.9 (PyCode 0) 0 (PyStream (File 0)) (demo_state demo_tree) =
    Some (Some TypeError,
      emit (File 0) [''# Python bytecode v (disassembled from Python v)\<newline>'', ''# <module>\<newline>'']
        (demo_state demo_tree)) \<and>
   written (emit (File 0) [''# Python bytecode v (disassembled from Python v)\<newline>'', ''# <module>\<newline>'']
        (demo_state demo_tree)) (File 0) \<noteq> written (demo_state demo_tree) (File 0)"
  by (simp add: disco_code_stream get_opcode_def program_lines_def root_header_def
      object_header_def program_header_def demo_env_def demo_state_def demo_tree_def demo_code_def)

section \<open>Termination (C4)\<close>

text \<open>
  C4, as the code has it. The loop ends whenever the objects reachable from the queue can be
  ranked: there is a set \<open>S\<close> holding the queue and closed under references, and a
  natural number for each object of \<open>S\<close> that is smaller for every code object its
  instructions refer to (as an argval). Shared objects are allowed.
\<close>

theorem disco_loop_terminates_ranked:
  assumes "set queue \<subseteq> S"
    and "\<forall>a\<in>S. \<forall>c\<in>set (children E st opc a). c \<in> S \<and> rank c < (rank a :: nat)"
  shows "\<exists>st'. disco_loop E opc version queue real_out st = Some st'"
  using disco_loop_finite [OF frontier_rank_empty [OF assms(2) assms(1)]] by blast

theorem disco_loop_terminates_ranked_witness:
  "set [0::addr] \<subseteq> set [0, 1, 2] \<and>
   list_all (\<lambda>a. list_all (\<lambda>c. c \<in> set [0, 1, 2] \<and> demo_rank c < demo_rank a)
      (children demo_env (demo_state demo_tree) opcode_27 a)) [0, 1, 2] \<and>
   (\<exists>st'. disco_loop demo_env opcode_27 2.7 [0] Stdout (demo_state demo_tree) = Some st')"
proof -
  have q: "set [0::addr] \<subseteq> set [0, 1, 2]" by simp
  have l: "list_all (\<lambda>a. list_all (\<lambda>c. c \<in> set [0, 1, 2] \<and> demo_rank c < demo_rank a)
      (children demo_env (demo_state demo_tree) opcode_27 a)) [0, 1, 2]"
    by (simp add: demo_rank_def)
  then have r: "\<forall>a\<in>set [0, 1, 2].
      \<forall>c\<in>set (children demo_env (demo_state demo_tree) opcode_27 a).
        c \<in> set [0, 1, 2] \<and> demo_rank c < demo_rank a"
    by (simp only: list_all_iff)
  show ?thesis
    by (intro conjI q l disco_loop_terminates_ranked [OF q r])
qed

text \<open>
  C4 as stated fails: on the code object that refers to itself the loop never ends.
\<close>

theorem disco_loop_cycle_counterexample:
  "disco_loop demo_env opcode_27 2.7 [0] Stdout (demo_state demo_cycle) = None"
proof (rule ccontr)
  assume "disco_loop demo_env opcode_27 2.7 [0] Stdout (demo_state demo_cycle) \<noteq> None"
  then obtain st' where
    "disco_loop demo_env opcode_27 2.7 [0] Stdout (demo_state demo_cycle) = Some st'" by auto
  from disco_loop_Some_depth [OF this] obtain n
    where n: "frontier (children demo_env (demo_state demo_cycle) opcode_27) n [0] = []" by blast
  have "frontier (children demo_env (demo_state demo_cycle) opcode_27) n [0] = [0]" for n
    using demo_children_cycle [of Stdout "[]" opcode_27]
    by (induction n) (simp_all del: demo_children_cycle)
  with n show False by simp
qed

section \<open>Headers of code objects (C5)\<close>

text \<open>
  C5, as the code has it. When disco runs to its end, its output is the program lines, then
  the root's header if and only if the root's filename is not empty, then for every visited
  code object in breadth-first order its listing, which the loop precedes by a header
  (after an empty line) if and only if the object's name is not \<open><module>\<close>; this test
  is the same for the root and for nested objects.
\<close>

theorem disco_headers:
  assumes "get_opcode E version = Inr opc"
    and "frontier (children E st opc) n [a] = []"
  shows "disco E version (PyCode a) timestamp (PyStream f) st =
    Some (None,
      emit f (program_lines E version timestamp @
        (if co_filename (code_objects st a) \<noteq> []
         then [format_code_info E (code_objects st a) version @ ''\<newline>''] else []) @
        concat (map (\<lambda>co.
            (if co_name (code_objects st co) \<noteq> ''<module>''
             then [''\<newline>'' @ format_code_info E (code_objects st co) version @ ''\<newline>'']
             else []) @
            [dis E (opcode_tables st opc) (code_objects st co) @ ''\<newline>''])
          (bfs_levels (children E st opc) n [a]))) st)"
proof -
  let ?pre = "program_lines E version timestamp @ root_header E st version a"
  have l: "listing E st opc version = (\<lambda>co.
            (if co_name (code_objects st co) \<noteq> ''<module>''
             then [''\<newline>'' @ format_code_info E (code_objects st co) version @ ''\<newline>'']
             else []) @
            [dis E (opcode_tables st opc) (code_objects st co) @ ''\<newline>''])"
    by (rule ext) (simp add: listing_def object_header_def)
  show ?thesis
    using disco_loop_finite [of E "emit f ?pre st" opc n "[a]" version f] assms
    by (simp add: disco_code_stream emit_emit l root_header_def object_header_def)
qed

theorem disco_headers_witness:
  "get_opcode demo_env 2.7 = Inr opcode_27 \<and>
   frontier (children demo_env (demo_state demo_tree) opcode_27) 2 [0] = [] \<and>
   disco demo_env 2.7 (PyCode 0) 5 (PyStream (File 0)) (demo_state demo_tree) =
     Some (None, emit (File 0)
       [''# Python bytecode v (disassembled from Python v)\<newline>'',
        ''# Timestamp in code: date\<newline>'',
        ''# <module>\<newline>'',
        ''dis <module>\<newline>'',
        ''\<newline># f\<newline>'', ''dis f\<newline>'',
        ''\<newline># g\<newline>'', ''dis g\<newline>'',
        ''\<newline># f\<newline>'', ''dis f\<newline>''] (demo_state demo_tree))"
proof -
  have two: "(2::nat) = Suc (Suc 0)" by simp
  have g: "get_opcode demo_env 2.7 = Inr opcode_27"
    by (simp add: get_opcode_def demo_env_def)
  have f: "frontier (children demo_env (demo_state demo_tree) opcode_27) 2 [0] = []"
    unfolding two by simp
  have b: "bfs_levels (children demo_env (demo_state demo_tree) opcode_27) 2 [0] = [0, 1, 2, 1]"
    unfolding two by simp
  show ?thesis
    using g f disco_headers [OF g f, of 5 "File 0"] unfolding b
    by (simp add: program_lines_def program_header_def timestamp_line_def
        demo_env_def demo_state_def demo_tree_def demo_code_def)
qed

text \<open>
  C5 as stated fails: a root named \<open>f\<close> with an empty filename gets a header all the
  same, from the loop.
\<close>

theorem disco_headers_counterexample:
  "co_filename (code_objects (demo_state demo_bare) 0) = [] \<and>
   disco demo_env 2.7 (PyCode 0) 0 (PyStream (File 0)) (demo_state demo_bare) =
     Some (None, emit (File 0)
       [''# Python bytecode v (disassembled from Python v)\<newline>'',
        ''\<newline># f\<newline>'', ''dis f\<newline>''] (demo_state demo_bare))"
proof -
  have g: "get_opcode demo_env 2.7 = Inr opcode_27"
    by (simp add: get_opcode_def demo_env_def)
  have f: "frontier (children demo_env (demo_state demo_bare) opcode_27) (Suc 0) [0] = []"
    by simp
  have l: "listing demo_env (demo_state demo_bare) opcode_27 2.7 0 = [''\<newline># f\<newline>'', ''dis f\<newline>'']"
    by (simp add: listing_def object_header_def demo_env_def demo_state_def demo_bare_def
        demo_code_def)
  have p: "program_lines demo_env 2.7 0 @ root_header demo_env (demo_state demo_bare) 2.7 0 =
      [''# Python bytecode v (disassembled from Python v)\<newline>'']"
    by (simp add: program_lines_def root_header_def program_header_def demo_env_def
        demo_state_def demo_bare_def demo_code_def)
  have c: "co_filename (code_objects (demo_state demo_bare) 0) = []"
    by (simp add: demo_state_def demo_bare_def demo_code_def)
  show ?thesis
    using disco_loop_finite [OF f, of "2.7" "File 0"] 
      disco_loop_finite [of demo_env "emit (File 0) (program_lines demo_env 2.7 0 @ root_header demo_env (demo_state demo_bare) 2.7 0) (demo_state demo_bare)" opcode_27 "Suc 0" "[0]" "2.7" "File 0"]
      g l c
    by (simp add: disco_code_stream emit_emit p)
qed

section \<open>Program header and timestamp (C6)\<close>

text \<open>
  C6. Given a code object and a stream, disco first writes the program header (version
  and PYTHON_VERSION), then the timestamp line if and only if the timestamp is greater than
  0, then the root's header if the root has a filename; what follows does not depend on
  the timestamp. With \<open>pre\<close> these first lines:
  \<^item> disco is the failure of get_opcode in the state where exactly \<open>pre\<close> has been
    written, or else the run of the loop from that state;
  \<^item> after any number \<open>k\<close> of iterations of that loop, also of a run that never ends, the
    stream holds \<open>pre\<close> followed by the listings of the first \<open>k\<close> visits;
  \<^item> if disco ends, normally or with an exception, the stream holds \<open>pre\<close> followed
    by the listings of the visits made.
  The rendering of the timestamp as a date is a parameter taken to return.
\<close>

theorem disco_program_header:
  fixes E :: "'opc env"
  defines "pre \<equiv> \<lambda>version timestamp (st :: 'opc state) a.
     (''# Python bytecode '' @ str_of E version @
      '' (disassembled from Python '' @ str_of E (PYTHON_VERSION E) @ '')\<newline>'') #
     (if timestamp > 0 then [''# Timestamp in code: '' @ calendar E timestamp @ ''\<newline>'']
      else []) @
     (if co_filename (code_objects st a) \<noteq> []
      then [format_code_info E (code_objects st a) version @ ''\<newline>''] else [])"
  shows
  "disco E version (PyCode a) timestamp (PyStream f) st =
     (case get_opcode E version of
        Inl e \<Rightarrow> Some (Some e, emit f (pre version timestamp st a) st)
      | Inr opc \<Rightarrow>
          map_option (Pair None)
            (disco_loop E opc version [a] f (emit f (pre version timestamp st a) st))) \<and>
   written (snd (disco_loop_iter k E opc version [a] f
       (emit f (pre version timestamp st a) st))) f =
     written st f @ pre version timestamp st a @
       concat (map (listing E st opc version) (visits (children E st opc) k [a])) \<and>
   (disco E version (PyCode a) timestamp (PyStream f) st = Some (exc, st') \<longrightarrow>
     (\<exists>j opc'. written st' f =
        written st f @ pre version timestamp st a @
          concat (map (listing E st opc' version) (visits (children E st opc') j [a]))))"
proof -
  have pre: "pre version timestamp st a =
      program_lines E version timestamp @ root_header E st version a"
    by (simp add: pre_def program_lines_def program_header_def timestamp_line_def
        root_header_def object_header_def)
  have one: "disco E version (PyCode a) timestamp (PyStream f) st =
     (case get_opcode E version of
        Inl e \<Rightarrow> Some (Some e, emit f (pre version timestamp st a) st)
      | Inr opc \<Rightarrow>
          map_option (Pair None)
            (disco_loop E opc version [a] f (emit f (pre version timestamp st a) st)))"
    unfolding pre by (rule disco_code_stream)
  have two: "written (snd (disco_loop_iter k E opc version [a] f
       (emit f (pre version timestamp st a) st))) f =
     written st f @ pre version timestamp st a @
       concat (map (listing E st opc version) (visits (children E st opc) k [a]))"
    for k opc
    by (simp add: disco_loop_iter_eq)
  have three: "\<exists>j opc'. written st' f =
        written st f @ pre version timestamp st a @
          concat (map (listing E st opc' version) (visits (children E st opc') j [a]))"
    if run: "disco E version (PyCode a) timestamp (PyStream f) st = Some (exc, st')"
  proof (cases "get_opcode E version")
    case (Inl e)
    with run one have "st' = emit f (pre version timestamp st a) st" by simp
    then have "written st' f = written st f @ pre version timestamp st a @
        concat (map (listing E st opcode_27 version) (visits (children E st opcode_27) 0 [a]))"
      by simp
    then show ?thesis by blast
  next
    case (Inr opc')
    with run one
    have "disco_loop E opc' version [a] f (emit f (pre version timestamp st a) st) = Some st'"
      by auto
    from disco_loop_Some_iter [OF this] obtain j
      where "disco_loop_iter j E opc' version [a] f (emit f (pre version timestamp st a) st) =
        ([], st')" by blast
    with two [of j opc'] have "written st' f = written st f @ pre version timestamp st a @
        concat (map (listing E st opc' version) (visits (children E st opc') j [a]))"
      by simp
    then show ?thesis by blast
  qed
  from one two three show ?thesis by blast
qed

text \<open>
  The module f, g, f with timestamp 5 and with timestamp 0, and the root that refers to
  itself: disco never returns there, and after two iterations the header lines are the
  first lines of the stream.
\<close>

theorem disco_program_header_witness:
  "disco demo_env 2.7 (PyCode 0) 5 (PyStream (File 0)) (demo_state demo_tree) =
     Some (None, emit (File 0)
       [''# Python bytecode v (disassembled from Python v)\<newline>'',
        ''# Timestamp in code: date\<newline>'',
        ''# <module>\<newline>'',
        ''dis <module>\<newline>'',
        ''\<newline># f\<newline>'', ''dis f\<newline>'',
        ''\<newline># g\<newline>'', ''dis g\<newline>'',
        ''\<newline># f\<newline>'', ''dis f\<newline>''] (demo_state demo_tree)) \<and>
   disco demo_env 2.7 (PyCode 0) 0 (PyStream (File 0)) (demo_state demo_tree) =
     Some (None, emit (File 0)
       [''# Python bytecode v (disassembled from Python v)\<newline>'',
        ''# <module>\<newline>'',
        ''dis <module>\<newline>'',
        ''\<newline># f\<newline>'', ''dis f\<newline>'',
        ''\<newline># g\<newline>'', ''dis g\<newline>'',
        ''\<newline># f\<newline>'', ''dis f\<newline>''] (demo_state demo_tree)) \<and>
   disco demo_env 2.7 (PyCode 0) 5 (PyStream (File 0)) (demo_state demo_cycle) = None \<and>
   written (snd (disco_loop_iter 2 demo_env opcode_27 2.7 [0] (File 0)
      (emit (File 0)
         [''# Python bytecode v (disassembled from Python v)\<newline>'',
          ''# Timestamp in code: date\<newline>'',
          ''# f\<newline>''] (demo_state demo_cycle)))) (File 0) =
     [''# Python bytecode v (disassembled from Python v)\<newline>'',
      ''# Timestamp in code: date\<newline>'',
      ''# f\<newline>'',
      ''\<newline># f\<newline>'', ''dis f\<newline>'', ''\<newline># f\<newline>'', ''dis f\<newline>'']"
proof -
  have g: "get_opcode demo_env 2.7 = Inr opcode_27"
    by (simp add: get_opcode_def demo_env_def)
  have two: "(2::nat) = Suc (Suc 0)" by simp
  have ft: "frontier (children demo_env (demo_state demo_tree) opcode_27) 2 [0] = []"
    unfolding two by simp
  have bt: "bfs_levels (children demo_env (demo_state demo_tree) opcode_27) 2 [0] = [0, 1, 2, 1]"
    unfolding two by simp
  have lt: "concat (map (listing demo_env (demo_state demo_tree) opcode_27 2.7) [0, 1, 2, 1]) =
       [''dis <module>\<newline>'',
        ''\<newline># f\<newline>'', ''dis f\<newline>'',
        ''\<newline># g\<newline>'', ''dis g\<newline>'',
        ''\<newline># f\<newline>'', ''dis f\<newline>'']"
    by (simp add: listing_def object_header_def demo_env_def demo_state_def demo_tree_def
        demo_code_def)
  have pt: "str_of demo_env = (\<lambda>v. ''v'')" "calendar demo_env = (\<lambda>t. ''date'')"
    "co_filename (code_objects (demo_state demo_tree) 0) = ''t.py''"
    "format_code_info demo_env (code_objects (demo_state demo_tree) 0) 2.7 = ''# <module>''"
    "co_filename (code_objects (demo_state demo_cycle) 0) = ''t.py''"
    "format_code_info demo_env (code_objects (demo_state demo_cycle) 0) 2.7 = ''# f''"
    "written (demo_state demo_cycle) (File 0) = []"
    by (simp_all add: demo_env_def demo_state_def demo_tree_def demo_cycle_def demo_code_def)
  have loop: "disco_loop demo_env opcode_27 2.7 [0] (File 0) (emit (File 0) ws (demo_state demo_tree)) =
     Some (emit (File 0) (ws @
       [''dis <module>\<newline>'',
        ''\<newline># f\<newline>'', ''dis f\<newline>'',
        ''\<newline># g\<newline>'', ''dis g\<newline>'',
        ''\<newline># f\<newline>'', ''dis f\<newline>'']) (demo_state demo_tree))" for ws
    using disco_loop_finite [of demo_env "emit (File 0) ws (demo_state demo_tree)" opcode_27 2
        "[0]" "2.7" "File 0"] ft bt lt
    by (simp add: emit_emit)
  have cyc: "disco_loop demo_env opcode_27 2.7 [0] (File 0) (emit (File 0) ws (demo_state demo_cycle))
      = None" for ws
  proof (rule ccontr)
    assume "disco_loop demo_env opcode_27 2.7 [0] (File 0)
        (emit (File 0) ws (demo_state demo_cycle)) \<noteq> None"
    then obtain s where "disco_loop demo_env opcode_27 2.7 [0] (File 0)
        (emit (File 0) ws (demo_state demo_cycle)) = Some s" by auto
    from disco_loop_Some_depth [OF this] obtain n
      where n: "frontier (children demo_env (demo_state demo_cycle) opcode_27) n [0] = []"
      by auto
    have "frontier (children demo_env (demo_state demo_cycle) opcode_27) n [0] = [0]" for n
      using demo_children_cycle [of Stdout "[]" opcode_27]
      by (induction n) (simp_all del: demo_children_cycle)
    with n show False by simp
  qed
  have cc: "children demo_env (demo_state demo_cycle) opcode_27 = (\<lambda>a. [0])"
    using demo_children_cycle [of Stdout "[]" opcode_27] by (intro ext) simp
  have lc: "listing demo_env (demo_state demo_cycle) opcode_27 2.7 0 =
      [''\<newline># f\<newline>'', ''dis f\<newline>'']"
    by (simp add: listing_def object_header_def demo_env_def demo_state_def demo_cycle_def
        demo_code_def)
  note t5 = disco_program_header
    [where E = demo_env and version = "2.7" and a = 0 and timestamp = 5 and f = "File 0"
       and st = "demo_state demo_tree", THEN conjunct1]
  note t0 = disco_program_header
    [where E = demo_env and version = "2.7" and a = 0 and timestamp = 0 and f = "File 0"
       and st = "demo_state demo_tree", THEN conjunct1]
  note c5 = disco_program_header
    [where E = demo_env and version = "2.7" and a = 0 and timestamp = 5 and f = "File 0"
       and st = "demo_state demo_cycle", THEN conjunct1]
  note i5 = disco_program_header
    [where E = demo_env and version = "2.7" and a = 0 and timestamp = 5 and f = "File 0"
       and st = "demo_state demo_cycle" and k = 2 and opc = opcode_27,
     THEN conjunct2, THEN conjunct1]
  have w1: "disco demo_env 2.7 (PyCode 0) 5 (PyStream (File 0)) (demo_state demo_tree) =
     Some (None, emit (File 0)
       [''# Python bytecode v (disassembled from Python v)\<newline>'',
        ''# Timestamp in code: date\<newline>'',
        ''# <module>\<newline>'',
        ''dis <module>\<newline>'',
        ''\<newline># f\<newline>'', ''dis f\<newline>'',
        ''\<newline># g\<newline>'', ''dis g\<newline>'',
        ''\<newline># f\<newline>'', ''dis f\<newline>''] (demo_state demo_tree))"
    using t5 by (simp add: g pt loop)
  have w2: "disco demo_env 2.7 (PyCode 0) 0 (PyStream (File 0)) (demo_state demo_tree) =
     Some (None, emit (File 0)
       [''# Python bytecode v (disassembled from Python v)\<newline>'',
        ''# <module>\<newline>'',
        ''dis <module>\<newline>'',
        ''\<newline># f\<newline>'', ''dis f\<newline>'',
        ''\<newline># g\<newline>'', ''dis g\<newline>'',
        ''\<newline># f\<newline>'', ''dis f\<newline>''] (demo_state demo_tree))"
    using t0 by (simp add: g pt loop)
  have w3: "disco demo_env 2.7 (PyCode 0) 5 (PyStream (File 0)) (demo_state demo_cycle) = None"
    using c5 by (simp add: g pt cyc)
  have w4: "written (snd (disco_loop_iter 2 demo_env opcode_27 2.7 [0] (File 0)
      (emit (File 0)
         [''# Python bytecode v (disassembled from Python v)\<newline>'',
          ''# Timestamp in code: date\<newline>'',
          ''# f\<newline>''] (demo_state demo_cycle)))) (File 0) =
     [''# Python bytecode v (disassembled from Python v)\<newline>'',
      ''# Timestamp in code: date\<newline>'',
      ''# f\<newline>'',
      ''\<newline># f\<newline>'', ''dis f\<newline>'', ''\<newline># f\<newline>'', ''dis f\<newline>'']"
    using i5 unfolding cc two by (simp add: pt lc)
  from w1 w2 w3 w4 show ?thesis by (intro conjI)
qed

section \<open>What is left unchanged (C7)\<close>

text \<open>
  C7. A run of disco_loop or of disco that ends, normally or with an exception, leaves
  every code object and every opcode table as it was; of the streams only the output
  stream may have received something. (The queue is the loop's own.)
\<close>

theorem disco_frame:
  "(disco_loop E opc version queue real_out st = Some st' \<longrightarrow>
      code_objects st' = code_objects st \<and> opcode_tables st' = opcode_tables st \<and>
      (\<forall>g. g \<noteq> real_out \<longrightarrow> written st' g = written st g)) \<and>
   (disco E version co timestamp out st = Some (exc, st'') \<longrightarrow>
      code_objects st'' = code_objects st \<and> opcode_tables st'' = opcode_tables st \<and>
      (\<forall>g. out \<noteq> PyStream g \<longrightarrow> written st'' g = written st g))"
proof (intro conjI impI)
  assume "disco_loop E opc version queue real_out st = Some st'"
  from disco_loop_Some_emit [OF this] obtain ws where st': "st' = emit real_out ws st" by blast
  show "code_objects st' = code_objects st" by (simp add: st')
  show "opcode_tables st' = opcode_tables st" by (simp add: st')
  show "\<forall>g. g \<noteq> real_out \<longrightarrow> written st' g = written st g"
    by (simp add: st' written_emit)
next
  assume "disco E version co timestamp out st = Some (exc, st'')"
  note fr = disco_Some_frame [OF this]
  from fr show "code_objects st'' = code_objects st" by auto
  from fr show "opcode_tables st'' = opcode_tables st" by auto
  from fr show "\<forall>g. out \<noteq> PyStream g \<longrightarrow> written st'' g = written st g"
    by (auto simp add: written_emit split: if_splits)
qed

theorem disco_frame_witness:
  "disco_loop demo_env opcode_27 2.7 [0] Stdout (demo_state demo_tree) =
     Some (emit Stdout
       [''dis <module>\<newline>'',
        ''\<newline># f\<newline>'', ''dis f\<newline>'',
        ''\<newline># g\<newline>'', ''dis g\<newline>'',
        ''\<newline># f\<newline>'', ''dis f\<newline>''] (demo_state demo_tree)) \<and>
   code_objects (emit Stdout
       [''dis <module>\<newline>'',
        ''\<newline># f\<newline>'', ''dis f\<newline>'',
        ''\<newline># g\<newline>'', ''dis g\<newline>'',
        ''\<newline># f\<newline>'', ''dis f\<newline>''] (demo_state demo_tree)) = demo_tree \<and>
   written (emit Stdout
       [''dis <module>\<newline>'',
        ''\<newline># f\<newline>'', ''dis f\<newline>'',
        ''\<newline># g\<newline>'', ''dis g\<newline>'',
        ''\<newline># f\<newline>'', ''dis f\<newline>''] (demo_state demo_tree)) Stderr = [] \<and>
   disco demo_env 9.9 (PyCode 0) 0 (PyStream (File 0)) (demo_state demo_tree) =
     Some (Some TypeError,
       emit (File 0) [''# Python bytecode v (disassembled from Python v)\<newline>'', ''# <module>\<newline>'']
         (demo_state demo_tree)) \<and>
   code_objects (emit (File 0)
       [''# Python bytecode v (disassembled from Python v)\<newline>'', ''# <module>\<newline>'']
         (demo_state demo_tree)) = demo_tree \<and>
   written (emit (File 0)
       [''# Python bytecode v (disassembled from Python v)\<newline>'', ''# <module>\<newline>'']
         (demo_state demo_tree)) Stdout = []"
proof -
  have l: "disco_loop demo_env opcode_27 2.7 [0] Stdout (demo_state demo_tree) =
     Some (emit Stdout
       [''dis <module>\<newline>'',
        ''\<newline># f\<newline>'', ''dis f\<newline>'',
        ''\<newline># g\<newline>'', ''dis g\<newline>'',
        ''\<newline># f\<newline>'', ''dis f\<newline>''] (demo_state demo_tree))"
    by (rule demo_loop_tree)
  have d: "disco demo_env 9.9 (PyCode 0) 0 (PyStream (File 0)) (demo_state demo_tree) =
     Some (Some TypeError,
       emit (File 0) [''# Python bytecode v (disassembled from Python v)\<newline>'', ''# <module>\<newline>'']
         (demo_state demo_tree))"
    by (simp add: disco_code_stream get_opcode_def program_lines_def root_header_def
        object_header_def program_header_def demo_env_def demo_state_def demo_tree_def
        demo_code_def)
  note fr1 = disco_frame [THEN conjunct1, rule_format, OF l]
  note fr2 = disco_frame [THEN conjunct2, rule_format, OF d]
  have s: "code_objects (demo_state demo_tree) = demo_tree"
    "written (demo_state demo_tree) Stderr = []" "written (demo_state demo_tree) Stdout = []"
    by (simp_all add: demo_state_def)
  from fr1 s have "code_objects (emit Stdout
       [''dis <module>\<newline>'',
        ''\<newline># f\<newline>'', ''dis f\<newline>'',
        ''\<newline># g\<newline>'', ''dis g\<newline>'',
        ''\<newline># f\<newline>'', ''dis f\<newline>''] (demo_state demo_tree)) = demo_tree"
    "written (emit Stdout
       [''dis <module>\<newline>'',
        ''\<newline># f\<newline>'', ''dis f\<newline>'',
        ''\<newline># g\<newline>'', ''dis g\<newline>'',
        ''\<newline># f\<newline>'', ''dis f\<newline>''] (demo_state demo_tree)) Stderr = []"
    by simp_all
  moreover from fr2 s have "code_objects (emit (File 0)
       [''# Python bytecode v (disassembled from Python v)\<newline>'', ''# <module>\<newline>'']
         (demo_state demo_tree)) = demo_tree"
    "written (emit (File 0)
       [''# Python bytecode v (disassembled from Python v)\<newline>'', ''# <module>\<newline>'']
         (demo_state demo_tree)) Stdout = []"
    by simp_all
  ultimately show ?thesis using l d by (intro conjI)
qed

section \<open>The assertion on the root (C8)\<close>

text \<open>
  C8. For a root that is not a code object disco fails with AssertionError, and the state
  is the one it started in: nothing has been written.
\<close>

theorem disco_asserts_iscode:
  assumes "\<not> iscode co"
  shows "disco E version co timestamp out st = Some (Some AssertionError, st)"
  using assms by (cases co) (simp_all add: disco_def)

theorem disco_asserts_iscode_witness:
  "\<not> iscode (PyInt 3) \<and>
   disco demo_env 2.7 (PyInt 3) 0 (PyStream Stdout) (demo_state demo_tree) =
     Some (Some AssertionError, demo_state demo_tree)"
proof -
  have n: "\<not> iscode (PyInt 3)" by simp
  from n disco_asserts_iscode [OF n] show ?thesis by simp
qed

section \<open>out = None (C9)\<close>

text \<open>
  C9. With \<open>out = None\<close> the fallback \<open>real_out\<close> is sys.stdout, but the program header
  is written to \<open>out\<close> itself: disco fails there with AttributeError and nothing is
  written, to sys.stdout or elsewhere.
\<close>

theorem disco_out_None:
  assumes "iscode co"
  shows "py_or PyNone (PyStream Stdout) = PyStream Stdout \<and>
    disco E version co timestamp PyNone st = Some (Some AttributeError, st)"
  using assms by (cases co) (simp_all add: disco_def py_or_def py_write_def)

theorem disco_out_None_witness:
  "iscode (PyCode 0) \<and>
   disco demo_env 2.7 (PyCode 0) 5 PyNone (demo_state demo_tree) =
     Some (Some AttributeError, demo_state demo_tree) \<and>
   written (demo_state demo_tree) Stdout = []"
proof -
  have c: "iscode (PyCode 0)" by simp
  from c disco_out_None [OF c, of demo_env "2.7" 5 "demo_state demo_tree"] show ?thesis
    by (simp add: demo_state_def)
qed

section \<open>The script entry point (C10)\<close>

text \<open>
  C10, as the code has it. \<open>_test\<close> reaches its call of disassemble_file exactly when
  there is one command-line argument, or none under Python 3; the call passes the keyword
  \<open>native\<close>, which disassemble_file does not have, so it raises TypeError with the state
  unchanged. For every other command line \<open>_test\<close> writes the usage line to sys.stderr
  and exits with status 2. In no case is anything disassembled.
\<close>

theorem u_test_outcome:
  "u_test E argv st =
    (if length argv = 2 \<or> (length argv = 1 \<and> PYTHON3 E)
     then Some (Some TypeError, st)
     else Some (Some (SystemExit 2), stream_write Stderr (usage E) st))"
  by (simp add: u_test_def call_native Let_def)

theorem u_test_outcome_witness:
  "u_test demo_env [''main.py'', ''t.pyc''] (demo_state demo_tree) =
     Some (Some TypeError, demo_state demo_tree) \<and>
   u_test (demo_env\<lparr>PYTHON3 := True\<rparr>) [''main.py''] (demo_state demo_tree) =
     Some (Some TypeError, demo_state demo_tree)"
  using u_test_outcome [of demo_env "[''main.py'', ''t.pyc'']" "demo_state demo_tree"]
    u_test_outcome [of "demo_env\<lparr>PYTHON3 := True\<rparr>" "[''main.py'']" "demo_state demo_tree"]
  by simp

text \<open>
  C10 as stated fails: with two arguments the script exits with status 2, not with a
  TypeError.
\<close>

theorem u_test_usage_counterexample:
  "u_test demo_env [''main.py'', ''a.pyc'', ''b.pyc''] (demo_state demo_tree) =
     Some (Some (SystemExit 2),
       emit Stderr [''usage: main.py [-|CPython compiled file]\<newline>''] (demo_state demo_tree))"
  by (simp add: u_test_def Let_def stream_write_emit usage_def demo_env_def)

end
